theory Spec2Isabelle
  imports Main
begin

section \<open>Shared vocabulary\<close>

text \<open>
  Exceptions of the Python source are values. \<open>XonshError\<close> carries its message; for the
  messages that are formatted with the offending token, the token is appended as the
  source's \<open>format\<close> call does.
\<close>

datatype error =
    TypeError
  | ValueError
  | IndexError
  | KeyError
  | AttributeError
  | PermissionError
  | UnicodeDecodeError
  | XonshError string

section \<open>Alias table (\<open>built_ins.py\<close>, class \<open>Aliases\<close>)\<close>

text \<open>
  The dictionary \<open>_raw\<close> maps a name to a list of tokens, to a callable, or to some
  other object (neither iterable nor callable). Callables are opaque values of type \<open>'f\<close>.
  A stored \<open>None\<close>, which \<open>get\<close> treats as a missing key, and iterables other than
  lists of strings are left out.
\<close>

datatype 'f alias_val = Tokens "string list" | Callable 'f | Other

text \<open>
  What a lookup returns: the default (Python's \<open>None\<close> unless the caller gives one), a
  token list, the callable itself, or the lambda that applies the callable to the
  accumulated arguments followed by its own (\<open>RPartial f acc_args\<close>).
\<close>

datatype 'f alias_result =
    RNone
  | RTokens "string list"
  | RCallable 'f
  | RPartial 'f "string list"

type_synonym 'f raw = "string \<rightharpoonup> 'f alias_val"

text \<open>
  \<open>Aliases.eval_alias\<close>. The recursion is written as the source has it, with no
  termination argument built in: a run that does not return is the value \<open>None\<close>.
  Unpacking \<open>token, *rest = value\<close> raises \<open>ValueError\<close> on an empty list and
  \<open>TypeError\<close> on an object that is not iterable.
\<close>

partial_function (option) eval_alias ::
  "'f raw \<Rightarrow> 'f alias_val \<Rightarrow> string set \<Rightarrow> string list \<Rightarrow> (error + 'f alias_result) option"
where
  "eval_alias raw val seen_tokens acc_args =
     (case val of
        Callable f \<Rightarrow>
          Some (Inr (if acc_args \<noteq> [] then RPartial f acc_args else RCallable f))
      | Other \<Rightarrow> Some (Inl TypeError)
      | Tokens toks \<Rightarrow>
          (case toks of
             [] \<Rightarrow> Some (Inl ValueError)
           | token # rest \<Rightarrow>
               if token \<in> seen_tokens \<or> raw token = None
               then Some (Inr (RTokens (toks @ acc_args)))
               else (case raw token of
                       None \<Rightarrow> Some (Inl KeyError)
                     | Some v \<Rightarrow> eval_alias raw v (insert token seen_tokens) (rest @ acc_args))))"

text \<open>\<open>Aliases.get\<close>: a missing key gives the default, an improper value raises.\<close>

definition Aliases_get ::
  "'f raw \<Rightarrow> string \<Rightarrow> 'f alias_result \<Rightarrow> (error + 'f alias_result) option"
where
  "Aliases_get raw key dflt =
     (case raw key of
        None \<Rightarrow> Some (Inr dflt)
      | Some Other \<Rightarrow> Some (Inl TypeError)
      | Some val \<Rightarrow> eval_alias raw val {key} [])"

text \<open>
  The seen set with which a run of \<open>eval_alias\<close> ends: the same recursion, with the
  same tests, that returns the argument \<open>seen_tokens\<close> of the last call in place of the
  value. For a lookup it is the key together with every token that was expanded.
\<close>

partial_function (option) eval_alias_seen ::
  "'f raw \<Rightarrow> 'f alias_val \<Rightarrow> string set \<Rightarrow> string set option"
where
  "eval_alias_seen raw val seen_tokens =
     (case val of
        Callable f \<Rightarrow> Some seen_tokens
      | Other \<Rightarrow> Some seen_tokens
      | Tokens toks \<Rightarrow>
          (case toks of
             [] \<Rightarrow> Some seen_tokens
           | token # rest \<Rightarrow>
               if token \<in> seen_tokens \<or> raw token = None
               then Some seen_tokens
               else (case raw token of
                       None \<Rightarrow> Some seen_tokens
                     | Some v \<Rightarrow> eval_alias_seen raw v (insert token seen_tokens))))"

definition lookup_seen :: "'f raw \<Rightarrow> string \<Rightarrow> string set option" where
  "lookup_seen raw key =
     (case raw key of None \<Rightarrow> Some {} | Some val \<Rightarrow> eval_alias_seen raw val {key})"

text \<open>
  \<open>Aliases.__setitem__\<close>: a string value is word-split before it is stored, anything
  else is stored as it is. \<open>shlex.split\<close> belongs to the Python standard library, not
  to this repository, so it is a parameter \<open>split\<close>; it raises \<open>ValueError\<close> on
  unbalanced quotes.
\<close>

datatype 'f alias_input = Str string | Obj "'f alias_val"

definition Aliases_setitem ::
  "(string \<Rightarrow> error + string list) \<Rightarrow> 'f raw \<Rightarrow> string \<Rightarrow> 'f alias_input \<Rightarrow> error + 'f raw"
where
  "Aliases_setitem split raw key val =
     (case val of
        Str s \<Rightarrow> (case split s of Inl e \<Rightarrow> Inl e | Inr toks \<Rightarrow> Inr (raw(key \<mapsto> Tokens toks)))
      | Obj v \<Rightarrow> Inr (raw(key \<mapsto> v)))"

text \<open>
  What \<open>shlex.split\<close> does on a string with no quote and no backslash: the fields
  between runs of the whitespace characters space, tab, carriage return and line feed.
  It instantiates \<open>split\<close> in the concrete scenarios below.
\<close>

definition shlex_whitespace :: "char \<Rightarrow> bool" where
  "shlex_whitespace c = (c = CHR '' '' \<or> c = CHR 0x09 \<or> c = CHR 0x0D \<or> c = CHR 0x0A)"

fun split_fields :: "string \<Rightarrow> string \<Rightarrow> string list" where
  "split_fields cur [] = (if cur = [] then [] else [cur])"
| "split_fields cur (c # cs) =
     (if shlex_whitespace c
      then (if cur = [] then split_fields [] cs else cur # split_fields [] cs)
      else split_fields (cur @ [c]) cs)"

definition split_plain :: "string \<Rightarrow> error + string list" where
  "split_plain s = Inr (split_fields [] s)"

section \<open>Redirection parser (\<open>proc.py\<close>, \<open>_redirect_io\<close>)\<close>

text \<open>
  The regular expression \<open>_REDIR_REGEX\<close> is \<open>NAME(>?>|<)NAME$\<close> with
  \<open>NAME = (o(?:ut)?|e(?:rr)?|a(?:ll)?|&?\d?)\<close>, matched from the start of the token.
  Each function below lists the ways one part can match a prefix of its input, in the
  order in which Python's backtracking matcher tries them, with the rest of the input.
  Tokens are byte strings here, so \<open>\d\<close> is an ASCII digit.
\<close>

definition is_digit :: "char \<Rightarrow> bool" where
  "is_digit c = (c \<in> set ''0123456789'')"

definition lit_opt :: "string \<Rightarrow> string \<Rightarrow> string \<Rightarrow> (string \<times> string) list" where
  "lit_opt a b s =
     (if take (length (a @ b)) s = a @ b then [(a @ b, drop (length (a @ b)) s)] else []) @
     (if take (length a) s = a then [(a, drop (length a) s)] else [])"

definition digit_opt :: "string \<Rightarrow> (string \<times> string) list" where
  "digit_opt s =
     (case s of c # cs \<Rightarrow> (if is_digit c then [([c], cs)] else []) | [] \<Rightarrow> []) @ [([], s)]"

definition amp_digit :: "string \<Rightarrow> (string \<times> string) list" where
  "amp_digit s =
     (case s of
        c # cs \<Rightarrow> (if c = CHR ''&'' then map (\<lambda>(m, r). (c # m, r)) (digit_opt cs) else [])
      | [] \<Rightarrow> []) @ digit_opt s"

definition REDIR_NAME :: "string \<Rightarrow> (string \<times> string) list" where
  "REDIR_NAME s = lit_opt ''o'' ''ut'' s @ lit_opt ''e'' ''rr'' s @ lit_opt ''a'' ''ll'' s @ amp_digit s"

definition REDIR_OP :: "string \<Rightarrow> (string \<times> string) list" where
  "REDIR_OP s = lit_opt ''>'' ''>'' s @ (if take 1 s = ''<'' then [(''<'', drop 1 s)] else [])"

text \<open>\<open>$\<close> matches at the end of the string and just before a final line feed.\<close>

definition at_end :: "string \<Rightarrow> bool" where
  "at_end s = (s = [] \<or> s = [CHR 0x0A])"

definition REDIR_REGEX_match :: "string \<Rightarrow> (string \<times> string \<times> string) option" where
  "REDIR_REGEX_match x =
     (case [(orig, mode, dest).
              (orig, r1) \<leftarrow> REDIR_NAME x, (mode, r2) \<leftarrow> REDIR_OP r1,
              (dest, r3) \<leftarrow> REDIR_NAME r2, at_end r3] of
        [] \<Rightarrow> None
      | g # _ \<Rightarrow> Some g)"

definition is_redirect :: "string \<Rightarrow> bool" where
  "is_redirect x = (REDIR_REGEX_match x \<noteq> None)"

definition MODES_get :: "string \<Rightarrow> string option" where
  "MODES_get m =
     (if m = ''>>'' then Some ''a'' else if m = ''>'' then Some ''w''
      else if m = ''<'' then Some ''r'' else None)"

definition WRITE_MODES :: "string list" where "WRITE_MODES = [''w'', ''a'']"

definition REDIR_ALL :: "string list" where "REDIR_ALL = [''&'', ''a'', ''all'']"

definition REDIR_ERR :: "string list" where "REDIR_ERR = [''2'', ''e'', ''err'']"

definition REDIR_OUT :: "string list" where "REDIR_OUT = ['''', ''1'', ''o'', ''out'']"

definition E2O_MAP :: "string list" where
  "E2O_MAP = [e @ ''>'' @ out. e \<leftarrow> REDIR_ERR, out \<leftarrow> REDIR_OUT, out \<noteq> '''']"

text \<open>
  A stream is bound to \<open>subprocess.STDOUT\<close>, to a file descriptor, or to an open file.
  The location is \<open>None\<close>, a path, or (after an \<open>&N\<close> destination) a descriptor.
  Opening a path is the parameter \<open>opn\<close>, \<open>None\<close> when \<open>open\<close> raises.
\<close>

datatype 'h binding = STDOUT | Fd nat | File 'h

datatype loc = LNone | LPath string | LFd nat

type_synonym 'h streams = "string \<rightharpoonup> 'h binding"

definition unrecognized :: "string \<Rightarrow> error" where
  "unrecognized r = XonshError (''Unrecognized redirection command: '' @ r)"

definition open_loc :: "(string \<Rightarrow> string \<Rightarrow> 'h option) \<Rightarrow> loc \<Rightarrow> string \<Rightarrow> error + 'h binding" where
  "open_loc opn fname mode =
     (case fname of
        LFd n \<Rightarrow> Inr (Fd n)
      | LPath p \<Rightarrow>
          (case opn p mode of
             Some h \<Rightarrow> Inr (File h)
           | None \<Rightarrow> Inl (XonshError (''xonsh: '' @ p @ '': no such file or directory'')))
      | LNone \<Rightarrow> Inl (XonshError ''xonsh: None: no such file or directory''))"

text \<open>
  \<open>int(dest[1:])\<close>: after the regular expression, the text behind \<open>&\<close> is empty or one
  digit; anything that is not a digit string raises \<open>ValueError\<close>.
\<close>

definition int_of_digit :: "string \<Rightarrow> nat option" where
  "int_of_digit s =
     (case s of [c] \<Rightarrow> (if is_digit c then Some (of_char c - 48) else None) | _ \<Rightarrow> None)"

definition redirect_fd :: "string \<Rightarrow> string \<Rightarrow> loc \<Rightarrow> error + (loc \<times> string)" where
  "redirect_fd r dest loc =
     (if take 1 dest = ''&'' then
        (case int_of_digit (drop 1 dest) of
           None \<Rightarrow> Inl ValueError
         | Some n \<Rightarrow> (if loc = LNone then Inr (LFd n, '''') else Inl (unrecognized r)))
      else Inr (loc, dest))"

definition bind_targets :: "'h streams \<Rightarrow> string list \<Rightarrow> 'h binding \<Rightarrow> 'h streams" where
  "bind_targets streams targets f = foldl (\<lambda>s t. s(t \<mapsto> f)) streams targets"

definition multiple_stderr :: error where
  "multiple_stderr = XonshError ''Multiple redirects for stderr''"

definition multiple_stdout :: error where
  "multiple_stdout = XonshError ''Multiple redirects for stdout''"

definition multiple_stdin :: error where
  "multiple_stdin = XonshError ''Multiple inputs for stdin''"

definition redirect_io ::
  "(string \<Rightarrow> string \<Rightarrow> 'h option) \<Rightarrow> 'h streams \<Rightarrow> string \<Rightarrow> loc \<Rightarrow> error + 'h streams"
where
  "redirect_io opn streams r loc =
     (if filter (\<lambda>c. c \<noteq> CHR ''&'') r \<in> set E2O_MAP then
        (if streams ''stderr'' \<noteq> None then Inl multiple_stderr
         else Inr (streams(''stderr'' \<mapsto> STDOUT)))
      else
        (case REDIR_REGEX_match r of
           None \<Rightarrow> Inl AttributeError
         | Some (orig, mode, dest0) \<Rightarrow>
             (case redirect_fd r dest0 loc of
                Inl e \<Rightarrow> Inl e
              | Inr (loc', dest) \<Rightarrow>
                  (case MODES_get mode of
                     None \<Rightarrow> Inl (unrecognized r)
                   | Some m \<Rightarrow>
                       if m = ''r'' then
                         (if orig \<noteq> [] \<or> dest \<noteq> [] then Inl (unrecognized r)
                          else if streams ''stdin'' \<noteq> None then Inl multiple_stdin
                          else (case open_loc opn loc' m of
                                  Inl e \<Rightarrow> Inl e
                                | Inr f \<Rightarrow> Inr (streams(''stdin'' \<mapsto> f))))
                       else if m \<in> set WRITE_MODES then
                         (case
                            (if orig \<in> set REDIR_ALL then
                               (if streams ''stderr'' \<noteq> None then Inl multiple_stderr
                                else if streams ''stdout'' \<noteq> None then Inl multiple_stdout
                                else if dest \<noteq> [] then Inl (unrecognized r)
                                else Inr [''stdout'', ''stderr''])
                             else if orig \<in> set REDIR_ERR then
                               (if streams ''stderr'' \<noteq> None then Inl multiple_stderr
                                else if dest \<noteq> [] then Inl (unrecognized r)
                                else Inr [''stderr''])
                             else if orig \<in> set REDIR_OUT then
                               (if streams ''stdout'' \<noteq> None then Inl multiple_stdout
                                else if dest \<noteq> [] then Inl (unrecognized r)
                                else Inr [''stdout''])
                             else Inl (unrecognized r))
                          of
                            Inl e \<Rightarrow> Inl e
                          | Inr targets \<Rightarrow>
                              (case open_loc opn loc' m of
                                 Inl e \<Rightarrow> Inl e
                               | Inr f \<Rightarrow> Inr (bind_targets streams targets f)))
                       else Inl (unrecognized r)))))"

text \<open>
  A sequence of calls on the same dictionary, as the loop of \<open>get_proc\<close> makes them:
  the first exception ends it.
\<close>

fun redirect_seq ::
  "(string \<Rightarrow> string \<Rightarrow> 'h option) \<Rightarrow> 'h streams \<Rightarrow> (string \<times> loc) list \<Rightarrow> error + 'h streams"
where
  "redirect_seq opn streams [] = Inr streams"
| "redirect_seq opn streams ((r, loc) # rs) =
     (case redirect_io opn streams r loc of
        Inl e \<Rightarrow> Inl e
      | Inr streams' \<Rightarrow> redirect_seq opn streams' rs)"

text \<open>
  The streams a token binds when nothing is bound yet, and the error the source raises
  for a second binding of each stream.
\<close>

definition binds :: "(string \<Rightarrow> string \<Rightarrow> 'h option) \<Rightarrow> string \<Rightarrow> loc \<Rightarrow> string \<Rightarrow> bool" where
  "binds opn r loc k =
     (case redirect_io opn Map.empty r loc of Inl e \<Rightarrow> False | Inr s \<Rightarrow> s k \<noteq> None)"

definition multiple_error :: "string \<Rightarrow> error" where
  "multiple_error k =
     (if k = ''stdin'' then multiple_stdin
      else if k = ''stdout'' then multiple_stdout
      else multiple_stderr)"

section \<open>Exit status (\<open>proc.py\<close>, \<open>get_return_code\<close>)\<close>

text \<open>
  The Python values that reach this part of the shell: \<open>None\<close>, booleans, integers,
  strings, sequences (lists and tuples), and any other object, which carries the text
  that \<open>str\<close> gives for it and is not equal to \<open>0\<close>.
\<close>

datatype pyval =
    PyNone
  | PyBool bool
  | PyInt int
  | PyStr string
  | PySeq "pyval list"
  | PyObj string

text \<open>
  \<open>get_return_code\<close>, on the \<open>returncode\<close> attribute it reads: a boolean is returned
  as it is, anything else is compared with \<open>0\<close>.
\<close>

fun get_return_code :: "pyval \<Rightarrow> bool" where
  "get_return_code (PyBool b) = b"
| "get_return_code (PyInt n) = (n = 0)"
| "get_return_code v = False"

section \<open>Proc-proxy runtime (\<open>proc.py\<close>, \<open>ProcProxy\<close> and \<open>SimpleProcProxy\<close>)\<close>












text \<open>
  The proxy after its thread has ended: \<open>returncode\<close>, the exception that ended the
  thread if one did, and the state the thread left behind.
\<close>

record 'w proxy =
  returncode :: pyval
  uncaught :: "error option"
  world :: 'w














section \<open>Stages and pipelines (\<open>get_proc\<close>, \<open>AndProc\<close>, \<open>OrProc\<close>, \<open>run_subproc\<close>)\<close>

text \<open>
  An entry of a command list is a connector string or a stage (a list: \<open>['cmd', tokens]\<close>,
  \<open>['and', c1, c2]\<close>, \<open>['or', c1, c2]\<close>). What it takes to start a stage and to observe
  it (spawning a child, threads, pipes) is the operating system's side and is taken as a
  record of operations over a state \<open>'w\<close>: \<open>build\<close> is \<open>get_proc\<close> on a stage entry,
  \<open>wait\<close> is the object's \<open>wait()\<close>, \<open>returncode_of\<close> reads its \<open>returncode\<close>.
\<close>

datatype 'c entry = StrEntry string | Stage 'c

datatype stdout_kind = NoStdout | SysStdout | PipeStdout

record ('c, 'p, 'w) runtime =
  build :: "'c \<Rightarrow> 'p option \<Rightarrow> bool \<Rightarrow> bool \<Rightarrow> 'w \<Rightarrow> (error + 'p option) \<times> 'w"
  wait :: "'p \<Rightarrow> 'w \<Rightarrow> 'w"
  returncode_of :: "'p \<Rightarrow> 'w \<Rightarrow> pyval"
  is_ProcProxy :: "'p \<Rightarrow> bool"
  is_jobs_ProcProxy :: "'p \<Rightarrow> bool"
  pid_of :: "'p \<Rightarrow> nat option"
  stdout_of :: "'p \<Rightarrow> stdout_kind"
  stdout_close :: "'p \<Rightarrow> 'w \<Rightarrow> 'w"
  stdout_read :: "'p \<Rightarrow> 'w \<Rightarrow> string \<times> 'w"

text \<open>
  \<open>get_proc\<close> on a string entry: \<open>cmd[0]\<close> raises \<open>IndexError\<close> on the empty string;
  otherwise \<open>cmd[1:]\<close> is a string and the function returns \<open>None\<close>.
\<close>

definition get_proc ::
  "('c, 'p, 'w) runtime \<Rightarrow> 'c entry \<Rightarrow> 'p option \<Rightarrow> bool \<Rightarrow> bool \<Rightarrow> 'w \<Rightarrow> (error + 'p option) \<times> 'w"
where
  "get_proc rt cmd prev_proc uninew captured w =
     (case cmd of
        StrEntry s \<Rightarrow> (if s = [] then (Inl IndexError, w) else (Inr None, w))
      | Stage c \<Rightarrow> build rt c prev_proc uninew captured w)"

text \<open>
  \<open>AndProc.run\<close> and \<open>OrProc.run\<close>. An exception ends the thread and leaves
  \<open>returncode\<close> at \<open>None\<close>; so does \<open>wait\<close> on the \<open>None\<close> that \<open>get_proc\<close>
  returns for a string entry.
\<close>

definition AndProc_run ::
  "('c, 'p, 'w) runtime \<Rightarrow> 'c entry \<Rightarrow> 'c entry \<Rightarrow> 'p option \<Rightarrow> bool \<Rightarrow> bool \<Rightarrow> 'w \<Rightarrow> 'w proxy"
where
  "AndProc_run rt cmd1 cmd2 prev_proc uninew captured w =
     (case get_proc rt cmd1 prev_proc uninew captured w of
        (Inl e, w1) \<Rightarrow> \<lparr>returncode = PyNone, uncaught = Some e, world = w1\<rparr>
      | (Inr None, w1) \<Rightarrow> \<lparr>returncode = PyNone, uncaught = Some AttributeError, world = w1\<rparr>
      | (Inr (Some o1), w1) \<Rightarrow>
          (let w2 = wait rt o1 w1 in
           if \<not> get_return_code (returncode_of rt o1 w2) then
             \<lparr>returncode = PyBool False, uncaught = None, world = w2\<rparr>
           else
             (case get_proc rt cmd2 prev_proc uninew captured w2 of
                (Inl e, w3) \<Rightarrow> \<lparr>returncode = PyNone, uncaught = Some e, world = w3\<rparr>
              | (Inr None, w3) \<Rightarrow>
                  \<lparr>returncode = PyNone, uncaught = Some AttributeError, world = w3\<rparr>
              | (Inr (Some o2), w3) \<Rightarrow>
                  (let w4 = wait rt o2 w3 in
                   \<lparr>returncode = PyBool (get_return_code (returncode_of rt o2 w4)),
                    uncaught = None, world = w4\<rparr>))))"

definition OrProc_run ::
  "('c, 'p, 'w) runtime \<Rightarrow> 'c entry \<Rightarrow> 'c entry \<Rightarrow> 'p option \<Rightarrow> bool \<Rightarrow> bool \<Rightarrow> 'w \<Rightarrow> 'w proxy"
where
  "OrProc_run rt cmd1 cmd2 prev_proc uninew captured w =
     (case get_proc rt cmd1 prev_proc uninew captured w of
        (Inl e, w1) \<Rightarrow> \<lparr>returncode = PyNone, uncaught = Some e, world = w1\<rparr>
      | (Inr None, w1) \<Rightarrow> \<lparr>returncode = PyNone, uncaught = Some AttributeError, world = w1\<rparr>
      | (Inr (Some o1), w1) \<Rightarrow>
          (let w2 = wait rt o1 w1 in
           if get_return_code (returncode_of rt o1 w2) then
             \<lparr>returncode = PyBool True, uncaught = None, world = w2\<rparr>
           else
             (case get_proc rt cmd2 prev_proc uninew captured w2 of
                (Inl e, w3) \<Rightarrow> \<lparr>returncode = PyNone, uncaught = Some e, world = w3\<rparr>
              | (Inr None, w3) \<Rightarrow>
                  \<lparr>returncode = PyNone, uncaught = Some AttributeError, world = w3\<rparr>
              | (Inr (Some o2), w3) \<Rightarrow>
                  (let w4 = wait rt o2 w3 in
                   \<lparr>returncode = PyBool (get_return_code (returncode_of rt o2 w4)),
                    uncaught = None, world = w4\<rparr>))))"

text \<open>
  To observe which stages a run builds and waits on, a runtime is wrapped so that its
  state carries, beside the state of the runtime it wraps, the list of the calls of
  \<open>build\<close> and \<open>wait\<close> made so far. Every operation does on the wrapped state what it
  does in the given runtime.
\<close>

datatype ('c, 'p) event = Built 'c | Waited 'p

definition logged ::
  "('c, 'p, 'w) runtime \<Rightarrow> ('c, 'p, ('c, 'p) event list \<times> 'w) runtime"
where
  "logged rt =
     \<lparr>build = (\<lambda>c prev_proc uninew captured lw.
                 case build rt c prev_proc uninew captured (snd lw) of
                   (r, w') \<Rightarrow> (r, (fst lw @ [Built c], w'))),
      wait = (\<lambda>p lw. (fst lw @ [Waited p], wait rt p (snd lw))),
      returncode_of = (\<lambda>p lw. returncode_of rt p (snd lw)),
      is_ProcProxy = is_ProcProxy rt,
      is_jobs_ProcProxy = is_jobs_ProcProxy rt,
      pid_of = pid_of rt,
      stdout_of = stdout_of rt,
      stdout_close = (\<lambda>p lw. (fst lw, stdout_close rt p (snd lw))),
      stdout_read = (\<lambda>p lw. case stdout_read rt p (snd lw) of (s, w') \<Rightarrow> (s, (fst lw, w')))\<rparr>"

text \<open>
  A small runtime for the concrete scenarios: a stage is its exit code and the object
  built for it is that code; a negative code stands for a command that cannot be built
  (\<open>get_proc\<close> raises); the state counts the waits.
\<close>

definition exit_code_runtime :: "(int, int, nat) runtime" where
  "exit_code_runtime =
     \<lparr>build = (\<lambda>c prev_proc uninew captured w.
                 if c < 0 then (Inl (XonshError ''xonsh: subprocess mode: command not found''), w)
                 else (Inr (Some c), w)),
      wait = (\<lambda>p w. Suc w),
      returncode_of = (\<lambda>p w. PyInt p),
      is_ProcProxy = (\<lambda>p. False),
      is_jobs_ProcProxy = (\<lambda>p. False),
      pid_of = (\<lambda>p. Some (nat p)),
      stdout_of = (\<lambda>p. PipeStdout),
      stdout_close = (\<lambda>p w. w),
      stdout_read = (\<lambda>p w. ('''', w))\<rparr>"










section \<open>Command resolver (\<open>proc.py\<close>, \<open>get_script_subproc_command\<close>)\<close>




















section \<open>Properties of the alias table\<close>

lemma eval_alias_returns:
  assumes fin: "finite (dom raw)"
  shows "\<exists>y. eval_alias raw val seen acc = Some y"
  using fin
proof (induction "card (dom raw - seen)" arbitrary: val seen acc rule: less_induct)
  case less
  show ?case
  proof (cases val)
    case (Tokens toks)
    show ?thesis
    proof (cases toks)
      case Nil
      with Tokens show ?thesis by (simp add: eval_alias.simps)
    next
      case (Cons token rest)
      show ?thesis
      proof (cases "token \<in> seen \<or> raw token = None")
        case True
        with Tokens Cons show ?thesis by (subst eval_alias.simps) auto
      next
        case False
        then obtain v where v: "raw token = Some v" and ns: "token \<notin> seen" by auto
        have "dom raw - insert token seen \<subset> dom raw - seen" using v ns by auto
        then have "card (dom raw - insert token seen) < card (dom raw - seen)"
          using less.prems by (intro psubset_card_mono) auto
        from less.hyps[OF this less.prems]
        obtain y where "eval_alias raw v (insert token seen) (rest @ acc) = Some y" by blast
        with Tokens Cons v ns show ?thesis by (subst eval_alias.simps) simp
      qed
    qed
  next
    case (Callable f)
    then show ?thesis by (simp add: eval_alias.simps)
  next
    case Other
    then show ?thesis by (simp add: eval_alias.simps)
  qed
qed

lemma eval_alias_stop:
  assumes "token \<in> seen \<or> raw token = None"
  shows "eval_alias raw (Tokens (token # rest)) seen acc = Some (Inr (RTokens (token # rest @ acc)))"
  using assms by (subst eval_alias.simps) auto

lemma eval_alias_tokens_nonempty_aux:
  assumes "eval_alias raw val seen acc = Some y"
  shows "\<forall>L. y = Inr (RTokens L) \<longrightarrow> L \<noteq> []"
  using assms
proof (induction rule: eval_alias.raw_induct[rotated 1, consumes 1])
  case (1 eval_alias' raw val seen acc y)
  then show ?case
    by (auto split: alias_val.splits list.splits if_splits option.splits)
qed

lemma eval_alias_tokens_nonempty:
  assumes "eval_alias raw val seen acc = Some (Inr (RTokens L))"
  shows "L \<noteq> []"
  using eval_alias_tokens_nonempty_aux[OF assms] by simp

text \<open>
  C3. For every alias table with finitely many keys and every key, the lookup returns
  (a value or an exception) after finitely many expansion steps, whatever the entries
  refer to, and so does the expansion of any value from any seen set; and the expansion
  of a token list stops at once, with the accumulated arguments appended, when its head
  token is in the seen set or is not a key of the table.
\<close>

theorem alias_lookup_terminates:
  assumes "finite (dom raw)"
  shows "(\<exists>y. Aliases_get raw key dflt = Some y) \<and>
         (\<exists>y. eval_alias raw val seen acc = Some y) \<and>
         (token \<in> seen \<or> raw token = None \<longrightarrow>
            eval_alias raw (Tokens (token # rest)) seen acc =
              Some (Inr (RTokens (token # rest @ acc))))"
proof -
  have "\<exists>y. Aliases_get raw key dflt = Some y"
  proof (cases "raw key")
    case None
    then show ?thesis by (simp add: Aliases_get_def)
  next
    case (Some v)
    then show ?thesis
      using eval_alias_returns[OF assms, of v "{key}" "[]"]
      by (cases v) (simp_all add: Aliases_get_def)
  qed
  moreover have "\<exists>y. eval_alias raw val seen acc = Some y"
    by (rule eval_alias_returns[OF assms])
  ultimately show ?thesis
    using eval_alias_stop[of token seen raw rest acc] by blast
qed

theorem alias_lookup_terminates_witness:
  "finite (dom [''a'' \<mapsto> Tokens [''b''], ''b'' \<mapsto> (Tokens [''a'', ''x''] :: unit alias_val)]) \<and>
   (\<exists>y. Aliases_get [''a'' \<mapsto> Tokens [''b''], ''b'' \<mapsto> (Tokens [''a'', ''x''] :: unit alias_val)]
           ''a'' RNone = Some y) \<and>
   eval_alias [''a'' \<mapsto> Tokens [''b''], ''b'' \<mapsto> (Tokens [''a'', ''x''] :: unit alias_val)]
     (Tokens [''a'', ''x'']) {''a'', ''b''} [] = Some (Inr (RTokens [''a'', ''x'']))"
  using alias_lookup_terminates
    [where raw = "[''a'' \<mapsto> Tokens [''b''], ''b'' \<mapsto> (Tokens [''a'', ''x''] :: unit alias_val)]"
       and key = "''a''" and dflt = RNone and val = "Tokens [''a'', ''x'']"
       and seen = "{''a'', ''b''}" and acc = "[]" and token = "''a''" and rest = "[''x'']"]
  by simp

text \<open>
  C5. In the table built by storing \<open>"ls -CF"\<close> under \<open>l\<close> and \<open>"ls --color=auto"\<close>
  under \<open>ls\<close> (each word-split on storing), the lookup of \<open>l\<close> returns exactly the
  tokens \<open>ls\<close>, \<open>--color=auto\<close>, \<open>-CF\<close>: the reference of \<open>ls\<close> to itself stops the
  recursion and the accumulated argument \<open>-CF\<close> is appended.
\<close>

theorem alias_l_ls_scenario:
  assumes "split ''ls -CF'' = Inr [''ls'', ''-CF'']"
    and "split ''ls --color=auto'' = Inr [''ls'', ''--color=auto'']"
    and "Aliases_setitem split Map.empty ''l'' (Str ''ls -CF'') = Inr raw1"
    and "Aliases_setitem split raw1 ''ls'' (Str ''ls --color=auto'') = Inr raw2"
  shows "Aliases_get raw2 ''l'' dflt = Some (Inr (RTokens [''ls'', ''--color=auto'', ''-CF'']))"
proof -
  have r1: "raw1 = [''l'' \<mapsto> Tokens [''ls'', ''-CF'']]"
    using assms(1,3) by (auto simp: Aliases_setitem_def)
  have r2: "raw2 = [''l'' \<mapsto> Tokens [''ls'', ''-CF''], ''ls'' \<mapsto> Tokens [''ls'', ''--color=auto'']]"
    using assms(2,4) unfolding r1 by (auto simp: Aliases_setitem_def)
  show ?thesis
    unfolding r2 by (simp add: Aliases_get_def eval_alias.simps)
qed

theorem alias_l_ls_scenario_witness:
  "split_plain ''ls -CF'' = Inr [''ls'', ''-CF''] \<and>
   split_plain ''ls --color=auto'' = Inr [''ls'', ''--color=auto''] \<and>
   Aliases_setitem split_plain Map.empty ''l'' (Str ''ls -CF'')
     = Inr [''l'' \<mapsto> (Tokens [''ls'', ''-CF''] :: unit alias_val)] \<and>
   Aliases_setitem split_plain [''l'' \<mapsto> Tokens [''ls'', ''-CF'']] ''ls'' (Str ''ls --color=auto'')
     = Inr [''l'' \<mapsto> (Tokens [''ls'', ''-CF''] :: unit alias_val),
            ''ls'' \<mapsto> Tokens [''ls'', ''--color=auto'']] \<and>
   Aliases_get [''l'' \<mapsto> Tokens [''ls'', ''-CF''], ''ls'' \<mapsto> Tokens [''ls'', ''--color=auto'']]
     ''l'' (RNone :: unit alias_result)
     = Some (Inr (RTokens [''ls'', ''--color=auto'', ''-CF'']))"
proof -
  have s1: "split_plain ''ls -CF'' = Inr [''ls'', ''-CF'']"
    by (simp add: split_plain_def shlex_whitespace_def)
  have s2: "split_plain ''ls --color=auto'' = Inr [''ls'', ''--color=auto'']"
    by (simp add: split_plain_def shlex_whitespace_def)
  have a1: "Aliases_setitem split_plain Map.empty ''l'' (Str ''ls -CF'')
              = Inr ([''l'' \<mapsto> Tokens [''ls'', ''-CF'']] :: unit raw)"
    by (simp add: Aliases_setitem_def s1)
  have a2: "Aliases_setitem split_plain [''l'' \<mapsto> Tokens [''ls'', ''-CF'']] ''ls''
              (Str ''ls --color=auto'')
              = Inr ([''l'' \<mapsto> Tokens [''ls'', ''-CF''],
                      ''ls'' \<mapsto> Tokens [''ls'', ''--color=auto'']] :: unit raw)"
    by (simp add: Aliases_setitem_def s2)
  show ?thesis
    using alias_l_ls_scenario[OF s1 s2 a1 a2, of RNone] s1 s2 a1 a2 by simp
qed

text \<open>
  C9, as stated, fails on the table of C5: the lookup of \<open>l\<close> yields \<open>ls --color=auto -CF\<close>,
  and evaluating that list again, from the seen set of the lookup or from the empty one,
  expands \<open>ls\<close> once more and yields \<open>ls --color=auto --color=auto -CF\<close>.
\<close>

theorem alias_reexpansion_counterexample:
  "Aliases_get [''l'' \<mapsto> Tokens [''ls'', ''-CF''], ''ls'' \<mapsto> Tokens [''ls'', ''--color=auto'']]
     ''l'' (RNone :: unit alias_result)
     = Some (Inr (RTokens [''ls'', ''--color=auto'', ''-CF''])) \<and>
   eval_alias [''l'' \<mapsto> Tokens [''ls'', ''-CF''], ''ls'' \<mapsto> Tokens [''ls'', ''--color=auto'']]
     (Tokens [''ls'', ''--color=auto'', ''-CF'']) {''l''} []
     = Some (Inr (RTokens [''ls'', ''--color=auto'', ''--color=auto'', ''-CF''] :: unit alias_result)) \<and>
   eval_alias [''l'' \<mapsto> Tokens [''ls'', ''-CF''], ''ls'' \<mapsto> Tokens [''ls'', ''--color=auto'']]
     (Tokens [''ls'', ''--color=auto'', ''-CF'']) {} []
     = Some (Inr (RTokens [''ls'', ''--color=auto'', ''--color=auto'', ''-CF''] :: unit alias_result))"
  by (simp add: Aliases_get_def eval_alias.simps)

lemma eval_alias_seen_link:
  assumes "eval_alias raw val seen acc = Some y"
  shows "\<forall>L. y = Inr (RTokens L) \<longrightarrow>
           (\<exists>S. eval_alias_seen raw val seen = Some S \<and> seen \<subseteq> S \<and> S \<subseteq> seen \<union> dom raw \<and>
                (hd L \<in> S \<or> raw (hd L) = None))"
  using assms
proof (induction rule: eval_alias.raw_induct[rotated 1, consumes 1])
  case (1 eval_alias' raw val seen acc y)
  show ?case
  proof (cases val)
    case (Tokens toks)
    show ?thesis
    proof (cases toks)
      case Nil
      with 1(2) Tokens show ?thesis by auto
    next
      case (Cons token rest)
      show ?thesis
      proof (cases "token \<in> seen \<or> raw token = None")
        case True
        with 1(2) Tokens Cons show ?thesis
          by (subst eval_alias_seen.simps) auto
      next
        case False
        then obtain v where v: "raw token = Some v" and ns: "token \<notin> seen" by auto
        from 1(2) Tokens Cons v ns
        have call: "eval_alias' raw v (insert token seen) (rest @ acc) = Some y" by simp
        show ?thesis
        proof (intro allI impI)
          fix L assume y: "y = Inr (RTokens L)"
          from 1(1)[OF call] y obtain S where
            S: "eval_alias_seen raw v (insert token seen) = Some S"
               "insert token seen \<subseteq> S" "S \<subseteq> insert token seen \<union> dom raw"
               "hd L \<in> S \<or> raw (hd L) = None"
            by blast
          have "eval_alias_seen raw val seen = Some S"
            using Tokens Cons v ns S(1) by (subst eval_alias_seen.simps) simp
          moreover have "seen \<subseteq> S" using S(2) by auto
          moreover have "S \<subseteq> seen \<union> dom raw" using S(3) v by auto
          ultimately show "\<exists>S. eval_alias_seen raw val seen = Some S \<and> seen \<subseteq> S \<and>
                              S \<subseteq> seen \<union> dom raw \<and> (hd L \<in> S \<or> raw (hd L) = None)"
            using S(4) by blast
        qed
      qed
    qed
  next
    case (Callable f)
    with 1(2) show ?thesis by (auto split: if_splits)
  next
    case Other
    with 1(2) show ?thesis by auto
  qed
qed

text \<open>
  C9, amended. If the lookup of a key of the table yields a token list, then the list is
  not empty; the lookup ends with a seen set that holds the key and otherwise only keys
  of the table; the head of the list is in that set or is not a key; and evaluating the
  list again against the same table yields the list itself under that seen set and
  under every seen set that contains it, and under any seen set at all when the head is
  not a key. (Under a seen set without the head, such as the one a new lookup starts
  with, a head that is a key is expanded once more.)
\<close>

theorem alias_result_stable:
  assumes "raw key = Some v"
    and "Aliases_get raw key dflt = Some (Inr (RTokens L))"
  shows "L \<noteq> [] \<and>
         (\<exists>S. lookup_seen raw key = Some S \<and> key \<in> S \<and> S \<subseteq> dom raw \<and>
              (hd L \<in> S \<or> raw (hd L) = None) \<and>
              (\<forall>S'. S \<subseteq> S' \<or> raw (hd L) = None \<longrightarrow>
                 eval_alias raw (Tokens L) S' [] = Some (Inr (RTokens L))))"
proof -
  have ev: "eval_alias raw v {key} [] = Some (Inr (RTokens L))"
    using assms by (cases v) (simp_all add: Aliases_get_def)
  then have ne: "L \<noteq> []" by (rule eval_alias_tokens_nonempty)
  then obtain token rest where L: "L = token # rest" by (cases L) auto
  from eval_alias_seen_link[OF ev] obtain S where
    S: "eval_alias_seen raw v {key} = Some S" "{key} \<subseteq> S" "S \<subseteq> {key} \<union> dom raw"
       "hd L \<in> S \<or> raw (hd L) = None"
    by blast
  have ls: "lookup_seen raw key = Some S" using assms(1) S(1) by (simp add: lookup_seen_def)
  have sub: "S \<subseteq> dom raw" using S(3) assms(1) by auto
  have stable: "eval_alias raw (Tokens L) S' [] = Some (Inr (RTokens L))"
    if "S \<subseteq> S' \<or> raw (hd L) = None" for S'
  proof -
    have "token \<in> S' \<or> raw token = None" using that S(4) unfolding L by auto
    with eval_alias_stop[of token S' raw rest "[]"] show ?thesis unfolding L by simp
  qed
  show ?thesis using ne ls S(2) sub S(4) stable by blast
qed

theorem alias_result_stable_witness:
  "[''l'' \<mapsto> Tokens [''ls'', ''-CF''], ''ls'' \<mapsto> (Tokens [''ls'', ''--color=auto''] :: unit alias_val)]
     ''l'' = Some (Tokens [''ls'', ''-CF'']) \<and>
   Aliases_get [''l'' \<mapsto> Tokens [''ls'', ''-CF''],
                ''ls'' \<mapsto> (Tokens [''ls'', ''--color=auto''] :: unit alias_val)] ''l'' RNone
     = Some (Inr (RTokens [''ls'', ''--color=auto'', ''-CF''])) \<and>
   lookup_seen [''l'' \<mapsto> Tokens [''ls'', ''-CF''],
                ''ls'' \<mapsto> (Tokens [''ls'', ''--color=auto''] :: unit alias_val)] ''l''
     = Some {''l'', ''ls''} \<and>
   eval_alias [''l'' \<mapsto> Tokens [''ls'', ''-CF''],
               ''ls'' \<mapsto> (Tokens [''ls'', ''--color=auto''] :: unit alias_val)]
     (Tokens [''ls'', ''--color=auto'', ''-CF'']) {''l'', ''ls''} []
     = Some (Inr (RTokens [''ls'', ''--color=auto'', ''-CF'']))"
proof -
  let ?raw = "[''l'' \<mapsto> Tokens [''ls'', ''-CF''],
               ''ls'' \<mapsto> (Tokens [''ls'', ''--color=auto''] :: unit alias_val)]"
  let ?L = "[''ls'', ''--color=auto'', ''-CF'']"
  have k: "?raw ''l'' = Some (Tokens [''ls'', ''-CF''])" by simp
  have g: "Aliases_get ?raw ''l'' RNone = Some (Inr (RTokens ?L))"
    by (simp add: Aliases_get_def eval_alias.simps)
  have s: "lookup_seen ?raw ''l'' = Some {''l'', ''ls''}"
    by (simp add: lookup_seen_def eval_alias_seen.simps insert_commute)
  from alias_result_stable[OF k g] obtain S where
    S: "lookup_seen ?raw ''l'' = Some S"
       "\<forall>S'. S \<subseteq> S' \<or> ?raw (hd ?L) = None \<longrightarrow>
          eval_alias ?raw (Tokens ?L) S' [] = Some (Inr (RTokens ?L))"
    by blast
  from S(1) s have "S = {''l'', ''ls''}" by simp
  with S(2) have "eval_alias ?raw (Tokens ?L) {''l'', ''ls''} [] = Some (Inr (RTokens ?L))"
    by blast
  with k g s show ?thesis by blast
qed

section \<open>Properties of the redirection parser\<close>

lemma redirect_io_frame:
  assumes ok: "redirect_io opn s r loc = Inr s'"
  shows "\<exists>targets f.
           targets \<noteq> [] \<and> set targets \<subseteq> {''stdin'', ''stdout'', ''stderr''} \<and>
           (\<forall>s2. if list_all (\<lambda>t. s2 t = None) targets
                 then redirect_io opn s2 r loc = Inr (bind_targets s2 targets f)
                 else list_ex (\<lambda>t. s2 t \<noteq> None \<and> redirect_io opn s2 r loc = Inl (multiple_error t))
                        targets)"
proof (cases "filter (\<lambda>c. c \<noteq> CHR ''&'') r \<in> set E2O_MAP")
  case True
  have "\<forall>s2. if list_all (\<lambda>t. s2 t = None) [''stderr'']
             then redirect_io opn s2 r loc = Inr (bind_targets s2 [''stderr''] STDOUT)
             else list_ex (\<lambda>t. s2 t \<noteq> None \<and> redirect_io opn s2 r loc = Inl (multiple_error t))
                    [''stderr'']"
    using True by (simp add: redirect_io_def bind_targets_def multiple_error_def)
  then show ?thesis by (intro exI[of _ "[''stderr'']"] exI[of _ STDOUT]) simp
next
  case False
  obtain orig mode dest0 where m: "REDIR_REGEX_match r = Some (orig, mode, dest0)"
    using ok False by (auto simp: redirect_io_def split: option.splits)
  obtain loc' dest where fd: "redirect_fd r dest0 loc = Inr (loc', dest)"
    using ok False m by (auto simp: redirect_io_def split: sum.splits)
  obtain md where md: "MODES_get mode = Some md"
    using ok False m fd by (auto simp: redirect_io_def split: option.splits)
  note known = False m fd md
  show ?thesis
  proof (cases "md = ''r''")
    case True
    obtain f where f: "orig = []" "dest = []" "open_loc opn loc' md = Inr f"
      using ok known True by (auto simp: redirect_io_def split: if_splits sum.splits)
    have "\<forall>s2. if list_all (\<lambda>t. s2 t = None) [''stdin'']
               then redirect_io opn s2 r loc = Inr (bind_targets s2 [''stdin''] f)
               else list_ex (\<lambda>t. s2 t \<noteq> None \<and> redirect_io opn s2 r loc = Inl (multiple_error t))
                      [''stdin'']"
      using known True f by (simp add: redirect_io_def bind_targets_def multiple_error_def)
    then show ?thesis by (intro exI[of _ "[''stdin'']"] exI[of _ f]) simp
  next
    case nr: False
    have w: "md \<in> set WRITE_MODES"
      using ok known nr by (auto simp: redirect_io_def split: if_splits)
    obtain f where f: "dest = []" "open_loc opn loc' md = Inr f"
      using ok known nr w by (auto simp: redirect_io_def split: if_splits sum.splits)
    consider (all) "orig \<in> set REDIR_ALL"
      | (err) "orig \<notin> set REDIR_ALL" "orig \<in> set REDIR_ERR"
      | (out) "orig \<notin> set REDIR_ALL" "orig \<notin> set REDIR_ERR" "orig \<in> set REDIR_OUT"
      using ok known nr w by (auto simp: redirect_io_def split: if_splits sum.splits)
    then show ?thesis
    proof cases
      case all
      have "\<forall>s2. if list_all (\<lambda>t. s2 t = None) [''stdout'', ''stderr'']
                 then redirect_io opn s2 r loc = Inr (bind_targets s2 [''stdout'', ''stderr''] f)
                 else list_ex (\<lambda>t. s2 t \<noteq> None \<and> redirect_io opn s2 r loc = Inl (multiple_error t))
                        [''stdout'', ''stderr'']"
        using known nr w f all by (simp add: redirect_io_def multiple_error_def)
      then show ?thesis by (intro exI[of _ "[''stdout'', ''stderr'']"] exI[of _ f]) simp
    next
      case err
      have "\<forall>s2. if list_all (\<lambda>t. s2 t = None) [''stderr'']
                 then redirect_io opn s2 r loc = Inr (bind_targets s2 [''stderr''] f)
                 else list_ex (\<lambda>t. s2 t \<noteq> None \<and> redirect_io opn s2 r loc = Inl (multiple_error t))
                        [''stderr'']"
        using known nr w f err by (simp add: redirect_io_def multiple_error_def)
      then show ?thesis by (intro exI[of _ "[''stderr'']"] exI[of _ f]) simp
    next
      case out
      have "\<forall>s2. if list_all (\<lambda>t. s2 t = None) [''stdout'']
                 then redirect_io opn s2 r loc = Inr (bind_targets s2 [''stdout''] f)
                 else list_ex (\<lambda>t. s2 t \<noteq> None \<and> redirect_io opn s2 r loc = Inl (multiple_error t))
                        [''stdout'']"
        using known nr w f out by (simp add: redirect_io_def multiple_error_def)
      then show ?thesis by (intro exI[of _ "[''stdout'']"] exI[of _ f]) simp
    qed
  qed
qed

lemma bind_targets_apply:
  "bind_targets s targets f k = (if k \<in> set targets then Some f else s k)"
  unfolding bind_targets_def by (induction targets arbitrary: s) auto

lemma binds_iff_target:
  assumes "\<forall>s2. if list_all (\<lambda>t. s2 t = None) targets
               then redirect_io opn s2 r loc = Inr (bind_targets s2 targets f)
               else list_ex (\<lambda>t. s2 t \<noteq> None \<and> redirect_io opn s2 r loc = Inl (multiple_error t))
                      targets"
  shows "binds opn r loc k \<longleftrightarrow> k \<in> set targets"
proof -
  have "list_all (\<lambda>t. (Map.empty :: 'a streams) t = None) targets"
    by (simp add: list_all_iff)
  with assms[THEN spec, of Map.empty]
  have "redirect_io opn Map.empty r loc = Inr (bind_targets Map.empty targets f)"
    by simp
  then show ?thesis by (simp add: binds_def bind_targets_apply)
qed

lemma redirect_io_step:
  assumes ok: "redirect_io opn s r loc = Inr s'"
  shows "(binds opn r loc k \<longrightarrow> s k = None \<and> s' k \<noteq> None) \<and>
         (\<not> binds opn r loc k \<longrightarrow> s' k = s k) \<and>
         (\<exists>t \<in> {''stdin'', ''stdout'', ''stderr''}. binds opn r loc t) \<and>
         (binds opn r loc k \<longrightarrow> k \<in> {''stdin'', ''stdout'', ''stderr''})"
proof -
  from redirect_io_frame[OF ok] obtain targets f where
    ne: "targets \<noteq> []" and sub: "set targets \<subseteq> {''stdin'', ''stdout'', ''stderr''}" and
    fr: "\<forall>s2. if list_all (\<lambda>t. s2 t = None) targets
              then redirect_io opn s2 r loc = Inr (bind_targets s2 targets f)
              else list_ex (\<lambda>t. s2 t \<noteq> None \<and> redirect_io opn s2 r loc = Inl (multiple_error t))
                     targets"
    by blast
  have b: "binds opn r loc t \<longleftrightarrow> t \<in> set targets" for t
    by (rule binds_iff_target[OF fr])
  have free: "list_all (\<lambda>t. s t = None) targets"
  proof (rule ccontr)
    assume "\<not> list_all (\<lambda>t. s t = None) targets"
    with fr[THEN spec, of s]
    have "list_ex (\<lambda>t. s t \<noteq> None \<and> redirect_io opn s r loc = Inl (multiple_error t)) targets"
      by simp
    then show False using ok by (auto simp: list_ex_iff)
  qed
  with fr[THEN spec, of s] have "redirect_io opn s r loc = Inr (bind_targets s targets f)"
    by simp
  with ok have s': "s' = bind_targets s targets f" by simp
  obtain t where t: "t \<in> set targets" using ne by (cases targets) auto
  show ?thesis
    using free sub t unfolding b s' by (auto simp: bind_targets_apply list_all_iff)
qed

lemma redirect_io_rebind:
  assumes b: "binds opn r loc k" and bound: "s k \<noteq> None"
  shows "\<exists>k'. binds opn r loc k' \<and> s k' \<noteq> None \<and> redirect_io opn s r loc = Inl (multiple_error k')"
proof -
  from b obtain s0 where ok: "redirect_io opn Map.empty r loc = Inr s0"
    by (auto simp: binds_def split: sum.splits)
  from redirect_io_frame[OF ok] obtain targets f where
    fr: "\<forall>s2. if list_all (\<lambda>t. s2 t = None) targets
              then redirect_io opn s2 r loc = Inr (bind_targets s2 targets f)
              else list_ex (\<lambda>t. s2 t \<noteq> None \<and> redirect_io opn s2 r loc = Inl (multiple_error t))
                     targets"
    by blast
  have bt: "binds opn r loc t \<longleftrightarrow> t \<in> set targets" for t
    by (rule binds_iff_target[OF fr])
  have "\<not> list_all (\<lambda>t. s t = None) targets"
    using b bound unfolding bt by (auto simp: list_all_iff)
  with fr[THEN spec, of s]
  have "list_ex (\<lambda>t. s t \<noteq> None \<and> redirect_io opn s r loc = Inl (multiple_error t)) targets"
    by simp
  then show ?thesis unfolding bt by (auto simp: list_ex_iff)
qed

lemma redirect_seq_count:
  assumes "redirect_seq opn s0 rs = Inr s"
  shows "length (filter (\<lambda>(r, loc). binds opn r loc k) rs) + (if s0 k = None then 0 else 1)
           = (if s k = None then 0 else 1)"
  using assms
proof (induction rs arbitrary: s0)
  case Nil
  then show ?case by simp
next
  case (Cons a rs)
  obtain r loc where a: "a = (r, loc)" by (cases a)
  from Cons.prems obtain s1 where
    st: "redirect_io opn s0 r loc = Inr s1" and rest: "redirect_seq opn s1 rs = Inr s"
    unfolding a by (auto split: sum.splits)
  from Cons.IH[OF rest]
  have ih: "length (filter (\<lambda>(r, loc). binds opn r loc k) rs) + (if s1 k = None then 0 else 1)
              = (if s k = None then 0 else 1)" .
  show ?case
  proof (cases "binds opn r loc k")
    case True
    with redirect_io_step[OF st, of k] have "s0 k = None" "s1 k \<noteq> None" by auto
    with ih True show ?thesis unfolding a by simp
  next
    case False
    with redirect_io_step[OF st, of k] have "s1 k = s0 k" by auto
    with ih False show ?thesis unfolding a by simp
  qed
qed

lemma redirect_seq_dom:
  assumes "redirect_seq opn s0 rs = Inr s"
  shows "dom s \<subseteq> dom s0 \<union> {''stdin'', ''stdout'', ''stderr''}"
  using assms
proof (induction rs arbitrary: s0)
  case Nil
  then show ?case by auto
next
  case (Cons a rs)
  obtain r loc where a: "a = (r, loc)" by (cases a)
  from Cons.prems obtain s1 where
    st: "redirect_io opn s0 r loc = Inr s1" and rest: "redirect_seq opn s1 rs = Inr s"
    unfolding a by (auto split: sum.splits)
  have "dom s1 \<subseteq> dom s0 \<union> {''stdin'', ''stdout'', ''stderr''}"
  proof
    fix k assume k: "k \<in> dom s1"
    show "k \<in> dom s0 \<union> {''stdin'', ''stdout'', ''stderr''}"
      using redirect_io_step[OF st, of k] k by (cases "binds opn r loc k") auto
  qed
  with Cons.IH[OF rest] show ?case by blast
qed

text \<open>
  C2. For every sequence of redirection tokens that the parser accepts from the empty
  map, each stream is bound by exactly one token of the sequence if it is bound at the
  end and by none otherwise, and only stdin, stdout and stderr are bound; and in the map
  reached, every token that would bind a stream that is already bound raises the error
  of such a stream (Multiple inputs for stdin, Multiple redirects for stdout, Multiple
  redirects for stderr) and binds nothing.
\<close>

theorem redirect_binds_at_most_once:
  assumes "redirect_seq opn Map.empty rs = Inr s"
  shows "(\<forall>k. length (filter (\<lambda>(r, loc). binds opn r loc k) rs) = (if s k = None then 0 else 1)) \<and>
         dom s \<subseteq> {''stdin'', ''stdout'', ''stderr''} \<and>
         (\<forall>r loc k. binds opn r loc k \<and> s k \<noteq> None \<longrightarrow>
            (\<exists>k'. binds opn r loc k' \<and> s k' \<noteq> None \<and>
                  redirect_io opn s r loc = Inl (multiple_error k')))"
proof -
  have "length (filter (\<lambda>(r, loc). binds opn r loc k) rs) = (if s k = None then 0 else 1)" for k
    using redirect_seq_count[OF assms, of k] by simp
  moreover have "dom s \<subseteq> {''stdin'', ''stdout'', ''stderr''}"
    using redirect_seq_dom[OF assms] by simp
  ultimately show ?thesis
    using redirect_io_rebind[of opn _ _ _ s] by blast
qed

lemmas redirect_eval =
  redirect_io_def E2O_MAP_def REDIR_ERR_def REDIR_OUT_def REDIR_ALL_def WRITE_MODES_def
  REDIR_REGEX_match_def REDIR_NAME_def REDIR_OP_def lit_opt_def amp_digit_def digit_opt_def
  is_digit_def at_end_def redirect_fd_def int_of_digit_def MODES_get_def open_loc_def
  bind_targets_def

theorem redirect_binds_at_most_once_witness:
  "redirect_seq (\<lambda>p m. Some p) Map.empty [(''>'', LPath ''out''), (''2>&1'', LNone)]
     = Inr [''stdout'' \<mapsto> File ''out'', ''stderr'' \<mapsto> STDOUT] \<and>
   length (filter (\<lambda>(r, loc). binds (\<lambda>p m. Some p) r loc ''stdout'')
             [(''>'', LPath ''out''), (''2>&1'', LNone)]) = 1 \<and>
   binds (\<lambda>p m. Some p) ''e>o'' LNone ''stderr'' \<and>
   (\<exists>k'. binds (\<lambda>p m. Some p) ''e>o'' LNone k' \<and>
         [''stdout'' \<mapsto> File ''out'', ''stderr'' \<mapsto> STDOUT] k' \<noteq> None \<and>
         redirect_io (\<lambda>p m. Some p) [''stdout'' \<mapsto> File ''out'', ''stderr'' \<mapsto> STDOUT] ''e>o'' LNone
           = Inl (multiple_error k'))"
proof -
  let ?opn = "\<lambda>(p :: string) (m :: string). Some p"
  let ?s = "[''stdout'' \<mapsto> File ''out'', ''stderr'' \<mapsto> (STDOUT :: string binding)]"
  have h: "redirect_seq ?opn Map.empty [(''>'', LPath ''out''), (''2>&1'', LNone)] = Inr ?s"
    by (simp add: redirect_eval)
  have b: "binds ?opn ''e>o'' LNone ''stderr''"
    by (simp add: binds_def redirect_eval)
  have bound: "?s ''stderr'' \<noteq> None" by simp
  note fact = redirect_binds_at_most_once[OF h]
  from fact have "length (filter (\<lambda>(r, loc). binds ?opn r loc ''stdout'')
                    [(''>'', LPath ''out''), (''2>&1'', LNone)])
                  = (if ?s ''stdout'' = None then 0 else 1)"
    by blast
  then have c: "length (filter (\<lambda>(r, loc). binds ?opn r loc ''stdout'')
                   [(''>'', LPath ''out''), (''2>&1'', LNone)]) = 1"
    by simp
  from fact b bound
  have e: "\<exists>k'. binds ?opn ''e>o'' LNone k' \<and> ?s k' \<noteq> None \<and>
             redirect_io ?opn ?s ''e>o'' LNone = Inl (multiple_error k')"
    by blast
  from h c b e show ?thesis by blast
qed

section \<open>The merge of stderr into stdout\<close>

text \<open>
  C10. For every token from which deleting every \<open>&\<close> leaves one of the nine forms
  err-marker \<open>>\<close> out-marker (so \<open>2>&1\<close> as well as \<open>2>1\<close>, \<open>e>o\<close>, \<open>err>out\<close>
  and their \<open>&\<close>-prefixed variants), the parser binds stderr to \<open>STDOUT\<close> (the merge),
  not to a file descriptor, and changes nothing else; it raises Multiple redirects for
  stderr exactly when stderr is already bound.
\<close>

theorem err_to_out_merge:
  assumes "filter (\<lambda>c. c \<noteq> CHR ''&'') r \<in> set E2O_MAP"
  shows "redirect_io opn streams r loc =
           (if streams ''stderr'' = None then Inr (streams(''stderr'' \<mapsto> STDOUT))
            else Inl multiple_stderr)"
  using assms by (simp add: redirect_io_def)

theorem err_to_out_merge_witness:
  "filter (\<lambda>c. c \<noteq> CHR ''&'') ''2>&1'' \<in> set E2O_MAP \<and>
   REDIR_REGEX_match ''2>&1'' = Some (''2'', ''>'', ''&1'') \<and>
   redirect_io (\<lambda>p m. None) (Map.empty :: unit streams) ''2>&1'' LNone
     = Inr [''stderr'' \<mapsto> STDOUT] \<and>
   redirect_io (\<lambda>p m. None) [''stderr'' \<mapsto> (Fd 3 :: unit binding)] ''2>&1'' LNone
     = Inl multiple_stderr"
proof -
  have h: "filter (\<lambda>c. c \<noteq> CHR ''&'') ''2>&1'' \<in> set E2O_MAP"
    by (simp add: E2O_MAP_def REDIR_ERR_def REDIR_OUT_def)
  have m: "REDIR_REGEX_match ''2>&1'' = Some (''2'', ''>'', ''&1'')"
    by (simp add: redirect_eval)
  from err_to_out_merge[OF h, of "\<lambda>p m. None" "Map.empty :: unit streams" LNone]
  have a: "redirect_io (\<lambda>p m. None) (Map.empty :: unit streams) ''2>&1'' LNone
             = Inr [''stderr'' \<mapsto> STDOUT]"
    by simp
  from err_to_out_merge[OF h, of "\<lambda>p m. None" "[''stderr'' \<mapsto> (Fd 3 :: unit binding)]" LNone]
  have b: "redirect_io (\<lambda>p m. None) [''stderr'' \<mapsto> (Fd 3 :: unit binding)] ''2>&1'' LNone
             = Inl multiple_stderr"
    by simp
  from h m a b show ?thesis by blast
qed

section \<open>Properties of the composite stages\<close>

text \<open>
  C1. Let the first command of a composite stage be built and waited on, and let the
  second be buildable in the state the first leaves behind whenever the result of the
  first does not decide. Then the normalised result of an \<open>and\<close> stage is the
  conjunction, and that of an \<open>or\<close> stage the disjunction, of the normalised results of
  the two commands; and the calls made on the runtime are: build and wait for the first
  command, followed by build and wait for the second exactly when the first does not
  decide (first true for \<open>and\<close>, first false for \<open>or\<close>). When the first decides,
  the state is the one the wait on the first left, whether or not the second could be
  built.
\<close>

theorem and_or_short_circuit:
  assumes b1: "build rt c1 prev_proc uninew captured w = (Inr (Some o1), w1)"
    and r1: "r1 = get_return_code (returncode_of rt o1 (wait rt o1 w1))"
    and r2: "r2 = get_return_code (returncode_of rt o2 (wait rt o2 w2))"
  shows "((r1 \<longrightarrow> build rt c2 prev_proc uninew captured (wait rt o1 w1) = (Inr (Some o2), w2)) \<longrightarrow>
            get_return_code (returncode
              (AndProc_run (logged rt) (Stage c1) (Stage c2) prev_proc uninew captured ([], w)))
              = (r1 \<and> r2) \<and>
            world (AndProc_run (logged rt) (Stage c1) (Stage c2) prev_proc uninew captured ([], w))
              = (if r1 then ([Built c1, Waited o1, Built c2, Waited o2], wait rt o2 w2)
                 else ([Built c1, Waited o1], wait rt o1 w1))) \<and>
         ((\<not> r1 \<longrightarrow> build rt c2 prev_proc uninew captured (wait rt o1 w1) = (Inr (Some o2), w2)) \<longrightarrow>
            get_return_code (returncode
              (OrProc_run (logged rt) (Stage c1) (Stage c2) prev_proc uninew captured ([], w)))
              = (r1 \<or> r2) \<and>
            world (OrProc_run (logged rt) (Stage c1) (Stage c2) prev_proc uninew captured ([], w))
              = (if r1 then ([Built c1, Waited o1], wait rt o1 w1)
                 else ([Built c1, Waited o1, Built c2, Waited o2], wait rt o2 w2)))"
  using b1 unfolding r1 r2
  by (auto simp: AndProc_run_def OrProc_run_def get_proc_def logged_def Let_def)

theorem and_or_short_circuit_witness:
  "get_return_code (returncode
     (AndProc_run (logged exit_code_runtime) (Stage 1) (Stage (- 1)) None False False ([], 0)))
     = False \<and>
   world (AndProc_run (logged exit_code_runtime) (Stage 1) (Stage (- 1)) None False False ([], 0))
     = ([Built 1, Waited 1], 1) \<and>
   get_return_code (returncode
     (AndProc_run (logged exit_code_runtime) (Stage 0) (Stage 1) None False False ([], 0)))
     = False \<and>
   world (AndProc_run (logged exit_code_runtime) (Stage 0) (Stage 1) None False False ([], 0))
     = ([Built 0, Waited 0, Built 1, Waited 1], 2) \<and>
   get_return_code (returncode
     (OrProc_run (logged exit_code_runtime) (Stage 0) (Stage (- 1)) None False False ([], 0)))
     = True \<and>
   world (OrProc_run (logged exit_code_runtime) (Stage 0) (Stage (- 1)) None False False ([], 0))
     = ([Built 0, Waited 0], 1) \<and>
   get_return_code (returncode
     (OrProc_run (logged exit_code_runtime) (Stage 1) (Stage 0) None False False ([], 0)))
     = True \<and>
   world (OrProc_run (logged exit_code_runtime) (Stage 1) (Stage 0) None False False ([], 0))
     = ([Built 1, Waited 1, Built 0, Waited 0], 2)"
proof -
  let ?rt = exit_code_runtime
  have b: "build ?rt c None False False w = (Inr (Some c), w)" if "0 \<le> c" for c w
    using that by (simp add: exit_code_runtime_def)
  have wt: "wait ?rt p w = Suc w" for p w by (simp add: exit_code_runtime_def)
  have rc: "get_return_code (returncode_of ?rt p w) = (p = 0)" for p w
    by (simp add: exit_code_runtime_def)
  have a1: "False = get_return_code (returncode_of ?rt 1 (wait ?rt 1 0))" by (simp add: rc)
  have a0: "True = get_return_code (returncode_of ?rt 0 (wait ?rt 0 0))" by (simp add: rc)
  have s1: "False = get_return_code (returncode_of ?rt 1 (wait ?rt 1 (Suc 0)))" by (simp add: rc)
  have s0: "True = get_return_code (returncode_of ?rt 0 (wait ?rt 0 (Suc 0)))" by (simp add: rc)
  have b0: "build ?rt 0 None False False (wait ?rt x 0) = (Inr (Some 0), Suc 0)" for x
    by (simp add: b wt)
  have b1: "build ?rt 1 None False False (wait ?rt x 0) = (Inr (Some 1), Suc 0)" for x
    by (simp add: b wt)
  note A = and_or_short_circuit[where rt = ?rt and prev_proc = None and uninew = False
             and captured = False and w = 0 and ?w1.0 = 0 and ?w2.0 = "Suc 0"]
  from A[where ?c1.0 = 1 and ?o1.0 = 1 and ?c2.0 = "- 1" and ?o2.0 = 0 and ?r1.0 = False
           and ?r2.0 = True, OF b[of 1 0] a1 s0]
  have p1: "get_return_code (returncode
              (AndProc_run (logged ?rt) (Stage 1) (Stage (- 1)) None False False ([], 0))) = False"
       "world (AndProc_run (logged ?rt) (Stage 1) (Stage (- 1)) None False False ([], 0))
          = ([Built 1, Waited 1], 1)"
    by (simp_all add: wt)
  from A[where ?c1.0 = 0 and ?o1.0 = 0 and ?c2.0 = 1 and ?o2.0 = 1 and ?r1.0 = True
           and ?r2.0 = False, OF b[of 0 0] a0 s1] b1[of 0]
  have p2: "get_return_code (returncode
              (AndProc_run (logged ?rt) (Stage 0) (Stage 1) None False False ([], 0))) = False"
       "world (AndProc_run (logged ?rt) (Stage 0) (Stage 1) None False False ([], 0))
          = ([Built 0, Waited 0, Built 1, Waited 1], 2)"
    by (simp_all add: wt)
  from A[where ?c1.0 = 0 and ?o1.0 = 0 and ?c2.0 = "- 1" and ?o2.0 = 0 and ?r1.0 = True
           and ?r2.0 = True, OF b[of 0 0] a0 s0]
  have p3: "get_return_code (returncode
              (OrProc_run (logged ?rt) (Stage 0) (Stage (- 1)) None False False ([], 0))) = True"
       "world (OrProc_run (logged ?rt) (Stage 0) (Stage (- 1)) None False False ([], 0))
          = ([Built 0, Waited 0], 1)"
    by (simp_all add: wt)
  from A[where ?c1.0 = 1 and ?o1.0 = 1 and ?c2.0 = 0 and ?o2.0 = 0 and ?r1.0 = False
           and ?r2.0 = True, OF b[of 1 0] a1 s0] b0[of 1]
  have p4: "get_return_code (returncode
              (OrProc_run (logged ?rt) (Stage 1) (Stage 0) None False False ([], 0))) = True"
       "world (OrProc_run (logged ?rt) (Stage 1) (Stage 0) None False False ([], 0))
          = ([Built 1, Waited 1, Built 0, Waited 0], 2)"
    by (simp_all add: wt)
  from p1 p2 p3 p4 show ?thesis by blast
qed

section \<open>Properties of the proc-proxies\<close>








section \<open>Properties of \<open>run_subproc\<close>\<close>






section \<open>Properties of the command resolver\<close>















end
